theory Spec2Isabelle
  imports Complex_Main
begin

section \<open>Data model (models/User.js, models/File.js, models/Folder.js)\<close>

text \<open>
  Documents are identified by their \<open>_id\<close>; an ObjectId is modelled as a natural number.
  A JavaScript string is the list of its UTF-16 code units. A JavaScript Number is modelled
  as a rational with exact arithmetic: the source computes in IEEE doubles, which agree with
  this on integers below \<open>2^53\<close>, and every number the routes store is such an integer (a
  byte count or a sum of byte counts). A collection is the list of its documents, in
  insertion order.
\<close>

type_synonym user_id = nat
type_synonym file_id = nat
type_synonym folder_id = nat
type_synonym jstring = "nat list"
type_synonym path = jstring

text \<open>A string literal of the source, as code units.\<close>

definition str :: "string \<Rightarrow> jstring" where
  "str cs = map of_char cs"

text \<open>A value of a request after the cast that the schema asks for (to ObjectId, to
  Boolean): \<open>Uncastable\<close> when the cast fails, in which case mongoose throws a CastError.\<close>

datatype 'a casted = Uncastable | Casts 'a

text \<open>UserSchema: \<open>storageUsed\<close> defaults to 0 and \<open>storageLimit\<close> to 1073741824.
  The password field plays no role in the file routes and is left out.\<close>

record user =
  uid :: user_id
  name :: jstring
  email :: jstring
  storageUsed :: rat
  storageLimit :: rat

text \<open>The element type of \<open>sharedWith\<close>. \<open>permission\<close> is a string with
  \<open>enum: ['read', 'edit']\<close>; the enum is a validator, so the stored string is kept as it is
  and checked where validators run.\<close>

record share =
  share_user :: user_id
  permission :: jstring

definition perm_read :: jstring where
  "perm_read = str ''read''"

definition perm_edit :: jstring where
  "perm_edit = str ''edit''"

text \<open>FileSchema. The field \<open>size\<close> is called \<open>file_size\<close> here, the field \<open>_id\<close> is
  \<open>fid\<close>. \<open>createdAt\<close> is only used to order listings and is left out.\<close>

record file_doc =
  fid :: file_id
  filename :: jstring
  originalName :: jstring
  mimetype :: jstring
  file_size :: rat
  path :: path
  owner :: user_id
  folder :: "folder_id option"
  isPublic :: bool
  sharedWith :: "share list"

text \<open>FolderSchema, with \<open>_id\<close> as \<open>did\<close>, \<open>name\<close> as \<open>folder_name\<close> and \<open>owner\<close> as
  \<open>folder_owner\<close>.\<close>

record folder_doc =
  did :: folder_id
  folder_name :: jstring
  folder_owner :: user_id
  parent :: "folder_id option"

text \<open>The database (three collections) and the upload directory on disk (the set of
  paths at which a blob exists).\<close>

record state =
  users :: "user list"
  files :: "file_doc list"
  folders :: "folder_doc list"
  blobs :: "path set"

text \<open>HTTP outcomes of the routes: 400, 404, 500, and the error that \<open>fileFilter\<close> hands to
  multer.\<close>

datatype error = BadRequest | NotFound | ServerError | StorageLimitExceeded

section \<open>Quota pre-flight check (\<open>fileFilter\<close>)\<close>

text \<open>
  \<open>fileSize = parseInt(req.headers['content-length'])\<close>: the second argument is the parsed
  header, \<open>None\<close> when \<open>parseInt\<close> yields \<open>NaN\<close>. A comparison with \<open>NaN\<close> is false, so the
  filter then lets the file through.
\<close>

definition fileFilter :: "user \<Rightarrow> int option \<Rightarrow> error + unit" where
  "fileFilter u contentLength =
     (case contentLength of
        None \<Rightarrow> Inr ()
      | Some fileSize \<Rightarrow>
          if storageUsed u + of_int fileSize > storageLimit u then Inl StorageLimitExceeded
          else Inr ())"

section \<open>Collection and disk primitives\<close>

text \<open>\<open>Model.findOne(q)\<close> is \<open>find\<close> on the list of documents. \<open>updateOne\<close> changes the
  first document that matches, \<open>deleteOne\<close> removes the first that matches, \<open>deleteMany\<close>
  removes all that match.\<close>

fun updateOne :: "('a \<Rightarrow> bool) \<Rightarrow> ('a \<Rightarrow> 'a) \<Rightarrow> 'a list \<Rightarrow> 'a list" where
  "updateOne P g [] = []"
| "updateOne P g (x # xs) = (if P x then g x # xs else x # updateOne P g xs)"

fun deleteOne :: "('a \<Rightarrow> bool) \<Rightarrow> 'a list \<Rightarrow> 'a list" where
  "deleteOne P [] = []"
| "deleteOne P (x # xs) = (if P x then xs else x # deleteOne P xs)"

definition deleteMany :: "('a \<Rightarrow> bool) \<Rightarrow> 'a list \<Rightarrow> 'a list" where
  "deleteMany P xs = filter (\<lambda>x. \<not> P x) xs"

text \<open>\<open>User.findByIdAndUpdate(userId, { $inc: { storageUsed: d } })\<close>.\<close>

definition inc_storageUsed :: "user_id \<Rightarrow> rat \<Rightarrow> state \<Rightarrow> state" where
  "inc_storageUsed userId d s =
     s\<lparr>users := updateOne (\<lambda>u. uid u = userId)
                    (\<lambda>u. u\<lparr>storageUsed := storageUsed u + d\<rparr>) (users s)\<rparr>"

text \<open>\<open>if (p && fs.existsSync(p)) fs.unlinkSync(p)\<close>: the empty string is falsy.\<close>

definition unlink_if_exists :: "path \<Rightarrow> state \<Rightarrow> state" where
  "unlink_if_exists p s = (if p \<noteq> [] \<and> p \<in> blobs s then s\<lparr>blobs := blobs s - {p}\<rparr> else s)"

section \<open>Schema setters and validation\<close>

text \<open>
  \<open>trim: true\<close> applies \<open>String.prototype.trim\<close> when a field is set. It strips the
  white space and line terminators of ECMAScript from both ends: U+0009 to U+000D, U+0020,
  U+00A0, U+1680, U+2000 to U+200A, U+2028, U+2029, U+202F, U+205F, U+3000 and U+FEFF,
  each a single code unit.
\<close>

definition is_space :: "nat \<Rightarrow> bool" where
  "is_space c =
     (c \<in> set [0x09, 0x0A, 0x0B, 0x0C, 0x0D, 0x20, 0xA0, 0x1680, 0x2000, 0x2001, 0x2002,
                0x2003, 0x2004, 0x2005, 0x2006, 0x2007, 0x2008, 0x2009, 0x200A, 0x2028,
                0x2029, 0x202F, 0x205F, 0x3000, 0xFEFF])"

definition trim :: "jstring \<Rightarrow> jstring" where
  "trim v = rev (dropWhile is_space (rev (dropWhile is_space v)))"

text \<open>
  UserSchema.email has \<open>trim: true\<close> and \<open>lowercase: true\<close>; mongoose applies the setters of
  a path also to the value of a query on it, the one declared last first.
  \<open>String.prototype.toLowerCase\<close> works from the case table of Unicode, which is no part
  of the repository: it is a parameter.
\<close>

definition email_setters :: "(jstring \<Rightarrow> jstring) \<Rightarrow> jstring \<Rightarrow> jstring" where
  "email_setters toLowerCase v = trim (toLowerCase v)"

text \<open>What a database call can throw.\<close>

datatype db_error = ValidationError | DuplicateKey | WriteFailed

text \<open>
  The validators of FileSchema, as \<open>save()\<close> runs them on a document: \<open>filename\<close>,
  \<open>originalName\<close>, \<open>mimetype\<close> and \<open>path\<close> are required (a required string must be
  non-empty), and the permission of every entry of \<open>sharedWith\<close> must be in the enum.
  \<open>size\<close> is \<open>{ type: Number, required: true }\<close>, with no \<open>min\<close> and no integer validator:
  every number passes.
\<close>

definition permission_valid :: "jstring \<Rightarrow> bool" where
  "permission_valid p = (p = perm_read \<or> p = perm_edit)"

definition File_valid :: "file_doc \<Rightarrow> bool" where
  "File_valid f =
     (filename f \<noteq> [] \<and> originalName f \<noteq> [] \<and> mimetype f \<noteq> [] \<and> path f \<noteq> []
      \<and> list_all (\<lambda>sh. permission_valid (permission sh)) (sharedWith f))"

text \<open>
  The object given to \<open>new File({...})\<close>. \<open>in_size\<close> is \<open>None\<close> when the value supplied is
  no number (absent, null, \<open>NaN\<close>, or something that does not cast to a number): then the
  path is in error, as it is for a \<open>folder\<close> that does not cast to an ObjectId. The
  infinities, which the cast lets through, are not represented.
\<close>

record file_input =
  in_filename :: jstring
  in_originalName :: jstring
  in_mimetype :: jstring
  in_size :: "rat option"
  in_path :: jstring
  in_owner :: user_id
  in_folder :: "folder_id casted option"

text \<open>
  Construction and validation of a new document: \<open>filename\<close> and \<open>originalName\<close> are
  trimmed when set, \<open>folder\<close> is null when none is given, \<open>isPublic\<close> defaults to false
  and \<open>sharedWith\<close> to the empty array.
\<close>

definition File_validate :: "file_id \<Rightarrow> file_input \<Rightarrow> db_error + file_doc" where
  "File_validate new_id inp =
     (case in_size inp of
        None \<Rightarrow> Inl ValidationError
      | Some sz \<Rightarrow>
          if in_folder inp = Some Uncastable then Inl ValidationError
          else
            let doc = \<lparr>fid = new_id, filename = trim (in_filename inp),
                       originalName = trim (in_originalName inp), mimetype = in_mimetype inp,
                       file_size = sz, path = in_path inp, owner = in_owner inp,
                       folder = (case in_folder inp of Some (Casts d) \<Rightarrow> Some d | _ \<Rightarrow> None),
                       isPublic = False, sharedWith = []\<rparr>
            in if File_valid doc then Inr doc else Inl ValidationError)"

text \<open>\<open>file.save()\<close> of a new document: validate, then insert; \<open>_id\<close> is a unique key.\<close>

definition File_save ::
  "file_id \<Rightarrow> file_input \<Rightarrow> file_doc list \<Rightarrow> db_error + (file_doc \<times> file_doc list)" where
  "File_save new_id inp fs =
     (case File_validate new_id inp of
        Inl e \<Rightarrow> Inl e
      | Inr doc \<Rightarrow>
          if list_ex (\<lambda>f. fid f = new_id) fs then Inl DuplicateKey
          else Inr (doc, fs @ [doc]))"

section \<open>Upload (\<open>POST /upload\<close>)\<close>

text \<open>\<open>req.file\<close> as multer's disk storage fills it in, after the blob was written to
  \<open>rf_path\<close>; \<open>rf_size\<close> is the number of bytes written.\<close>

record req_file =
  rf_filename :: jstring
  rf_originalname :: jstring
  rf_mimetype :: jstring
  rf_size :: nat
  rf_path :: path

text \<open>Which of the two database calls of the handler throws for a reason outside the
  model (for example a lost connection).\<close>

record faults =
  save_throws :: bool
  inc_throws :: bool

definition no_faults :: faults where
  "no_faults = \<lparr>save_throws = False, inc_throws = False\<rparr>"

text \<open>
  The handler. \<open>folderId\<close> is \<open>req.body.folderId\<close>: \<open>None\<close> when it is missing or empty
  (\<open>folderId || null\<close>), otherwise its cast to ObjectId. \<open>new_id\<close> is the ObjectId generated
  for the new document. In the \<open>catch\<close> block the blob of \<open>req.file\<close> is unlinked if it
  exists and the answer is 500. When \<open>file.save()\<close> has succeeded and the increment throws,
  the saved record stays.
\<close>

definition upload ::
  "faults \<Rightarrow> user_id \<Rightarrow> req_file option \<Rightarrow> folder_id casted option \<Rightarrow> file_id \<Rightarrow> state
   \<Rightarrow> state \<times> (error + file_doc)" where
  "upload fl userId reqfile folderId new_id s =
     (case reqfile of
        None \<Rightarrow> (s, Inl BadRequest)
      | Some rf \<Rightarrow>
          (case (if save_throws fl then Inl WriteFailed
                 else File_save new_id
                        \<lparr>in_filename = rf_filename rf, in_originalName = rf_originalname rf,
                         in_mimetype = rf_mimetype rf, in_size = Some (of_nat (rf_size rf)),
                         in_path = rf_path rf, in_owner = userId, in_folder = folderId\<rparr>
                        (files s)) of
             Inl e \<Rightarrow> (unlink_if_exists (rf_path rf) s, Inl ServerError)
           | Inr (doc, fs') \<Rightarrow>
               if inc_throws fl
               then (unlink_if_exists (rf_path rf) (s\<lparr>files := fs'\<rparr>), Inl ServerError)
               else (inc_storageUsed userId (of_nat (rf_size rf)) (s\<lparr>files := fs'\<rparr>),
                     Inr doc)))"

section \<open>Download (\<open>GET /download/:fileId\<close>)\<close>

text \<open>The query \<open>{ _id, $or: [owner, sharedWith $elemMatch user, isPublic] }\<close>; it throws
  when \<open>fileId\<close> does not cast to an ObjectId (500). On success the handler calls
  \<open>res.download(file.path, file.originalName)\<close>.\<close>

definition download :: "user_id \<Rightarrow> file_id casted \<Rightarrow> state \<Rightarrow> error + (path \<times> jstring)" where
  "download userId fileId s =
     (case fileId of
        Uncastable \<Rightarrow> Inl ServerError
      | Casts i \<Rightarrow>
          (case find (\<lambda>f. fid f = i \<and>
                           (owner f = userId
                            \<or> list_ex (\<lambda>sh. share_user sh = userId) (sharedWith f)
                            \<or> isPublic f)) (files s) of
             None \<Rightarrow> Inl NotFound
           | Some f \<Rightarrow> Inr (path f, originalName f)))"

section \<open>Create folder (\<open>POST /folder\<close>)\<close>

text \<open>\<open>!name\<close> holds for a missing or empty name (400). \<open>folder.save()\<close> validates the
  trimmed name as required and the parent as an ObjectId (or null when missing or empty),
  and inserts under the new \<open>_id\<close>; if it throws the answer is 500.\<close>

definition createFolder ::
  "user_id \<Rightarrow> jstring \<Rightarrow> folder_id casted option \<Rightarrow> folder_id \<Rightarrow> state
   \<Rightarrow> state \<times> (error + folder_doc)" where
  "createFolder userId nm parentId new_id s =
     (if nm = [] then (s, Inl BadRequest)
      else if trim nm = [] \<or> parentId = Some Uncastable
              \<or> list_ex (\<lambda>d. did d = new_id) (folders s)
      then (s, Inl ServerError)
      else
        let d = \<lparr>did = new_id, folder_name = trim nm, folder_owner = userId,
                 parent = (case parentId of Some (Casts p) \<Rightarrow> Some p | _ \<Rightarrow> None)\<rparr>
        in (s\<lparr>folders := folders s @ [d]\<rparr>, Inr d))"

section \<open>Delete file (\<open>DELETE /file/:fileId\<close>)\<close>

text \<open>\<open>File.findOne({ _id: fileId, owner: userId })\<close> throws when \<open>fileId\<close> does not cast
  to an ObjectId, and the \<open>catch\<close> block answers 500.\<close>

definition deleteFile :: "user_id \<Rightarrow> file_id casted \<Rightarrow> state \<Rightarrow> state \<times> (error + unit)" where
  "deleteFile userId fileId s =
     (case fileId of
        Uncastable \<Rightarrow> (s, Inl ServerError)
      | Casts i \<Rightarrow>
          (case find (\<lambda>f. fid f = i \<and> owner f = userId) (files s) of
             None \<Rightarrow> (s, Inl NotFound)
           | Some f \<Rightarrow>
               let s1 = unlink_if_exists (path f) s;
                   s2 = inc_storageUsed userId (- file_size f) s1;
                   s3 = s2\<lparr>files := deleteOne (\<lambda>g. fid g = fid f) (files s2)\<rparr>
               in (s3, Inr ())))"

section \<open>Delete folder (\<open>DELETE /folder/:folderId\<close>)\<close>

text \<open>
  After its two reads (the folder, owned by the caller; the files whose \<open>folder\<close> is the
  folder's id, with no condition on their owner) the handler performs a sequence of writes.
  The writes are kept as a list, in the order of the source, so that the state after any
  number of them can be inspected. The first read throws when \<open>folderId\<close> does not cast to
  an ObjectId (500).
\<close>

datatype effect =
  Unlink path
| IncStorageUsed user_id rat
| FileDeleteMany folder_id
| FolderDeleteOne folder_id

fun apply_effect :: "effect \<Rightarrow> state \<Rightarrow> state" where
  "apply_effect (Unlink p) s = unlink_if_exists p s"
| "apply_effect (IncStorageUsed u d) s = inc_storageUsed u d s"
| "apply_effect (FileDeleteMany d) s = s\<lparr>files := deleteMany (\<lambda>f. folder f = Some d) (files s)\<rparr>"
| "apply_effect (FolderDeleteOne d) s = s\<lparr>folders := deleteOne (\<lambda>x. did x = d) (folders s)\<rparr>"

definition run_effects :: "effect list \<Rightarrow> state \<Rightarrow> state" where
  "run_effects es s = foldl (\<lambda>t e. apply_effect e t) s es"

text \<open>\<open>files.reduce((total, file) => total + file.size, 0)\<close>.\<close>

definition totalSize :: "file_doc list \<Rightarrow> rat" where
  "totalSize fs = foldl (\<lambda>total f. total + file_size f) 0 fs"

definition deleteFolder_effects ::
  "user_id \<Rightarrow> folder_id casted \<Rightarrow> state \<Rightarrow> error + effect list" where
  "deleteFolder_effects userId folderId s =
     (case folderId of
        Uncastable \<Rightarrow> Inl ServerError
      | Casts i \<Rightarrow>
          (case find (\<lambda>d. did d = i \<and> folder_owner d = userId) (folders s) of
             None \<Rightarrow> Inl NotFound
           | Some d \<Rightarrow>
               let fs = filter (\<lambda>f. folder f = Some i) (files s)
               in Inr (map (\<lambda>f. Unlink (path f)) fs
                       @ (if totalSize fs > 0 then [IncStorageUsed userId (- totalSize fs)]
                          else [])
                       @ [FileDeleteMany i, FolderDeleteOne (did d)])))"

definition deleteFolder ::
  "user_id \<Rightarrow> folder_id casted \<Rightarrow> state \<Rightarrow> state \<times> (error + unit)" where
  "deleteFolder userId folderId s =
     (case deleteFolder_effects userId folderId s of
        Inl e \<Rightarrow> (s, Inl e)
      | Inr es \<Rightarrow> (run_effects es s, Inr ()))"

text \<open>The state in which the handler leaves the system when it stops after its first
  \<open>k\<close> writes.\<close>

definition deleteFolder_after ::
  "nat \<Rightarrow> user_id \<Rightarrow> folder_id casted \<Rightarrow> state \<Rightarrow> state" where
  "deleteFolder_after k userId folderId s =
     (case deleteFolder_effects userId folderId s of
        Inl e \<Rightarrow> s
      | Inr es \<Rightarrow> run_effects (take k es) s)"

section \<open>Share a file (\<open>POST /share/file/:fileId\<close>)\<close>

text \<open>
  \<open>email\<close> and \<open>permission\<close> are the strings of the request body, empty when missing.
  The target is looked up by the email after the setters of the schema.
  \<open>permission || 'read'\<close> is the permission to store. If the target already has an entry,
  \<open>File.updateOne\<close> with the positional operator sets the permission of the first matching
  entry of the first matching document, and no validator runs. Otherwise an entry is pushed
  and \<open>file.save()\<close> validates the document and writes it; if the validation fails, it
  throws and the answer is 500. \<open>File.findOne\<close> throws when \<open>fileId\<close> does not cast to an
  ObjectId (500).
\<close>

definition perm_or_read :: "jstring \<Rightarrow> jstring" where
  "perm_or_read p = (if p = [] then perm_read else p)"

definition shareFile ::
  "(jstring \<Rightarrow> jstring) \<Rightarrow> user_id \<Rightarrow> file_id casted \<Rightarrow> jstring \<Rightarrow> jstring \<Rightarrow> state
   \<Rightarrow> state \<times> (error + share)" where
  "shareFile toLowerCase userId fileId em p s =
     (if em = [] then (s, Inl BadRequest)
      else
        (case find (\<lambda>u. email u = email_setters toLowerCase em) (users s) of
           None \<Rightarrow> (s, Inl NotFound)
         | Some targetUser \<Rightarrow>
             (if uid targetUser = userId then (s, Inl BadRequest)
              else
                (case fileId of
                   Uncastable \<Rightarrow> (s, Inl ServerError)
                 | Casts i \<Rightarrow>
                     (case find (\<lambda>f. fid f = i \<and> owner f = userId) (files s) of
                        None \<Rightarrow> (s, Inl NotFound)
                      | Some f \<Rightarrow>
                          (if list_ex (\<lambda>sh. share_user sh = uid targetUser) (sharedWith f)
                           then
                             (s\<lparr>files :=
                                  updateOne
                                    (\<lambda>g. fid g = i
                                          \<and> list_ex (\<lambda>sh. share_user sh = uid targetUser)
                                               (sharedWith g))
                                    (\<lambda>g. g\<lparr>sharedWith :=
                                               updateOne (\<lambda>sh. share_user sh = uid targetUser)
                                                 (\<lambda>sh. sh\<lparr>permission := perm_or_read p\<rparr>)
                                                 (sharedWith g)\<rparr>)
                                    (files s)\<rparr>,
                              Inr \<lparr>share_user = uid targetUser, permission = perm_or_read p\<rparr>)
                           else if File_valid
                                     (f\<lparr>sharedWith :=
                                          sharedWith f
                                          @ [\<lparr>share_user = uid targetUser,
                                              permission = perm_or_read p\<rparr>]\<rparr>)
                           then
                             (s\<lparr>files :=
                                  updateOne (\<lambda>g. fid g = fid f)
                                    (\<lambda>g. g\<lparr>sharedWith :=
                                               sharedWith f
                                               @ [\<lparr>share_user = uid targetUser,
                                                   permission = perm_or_read p\<rparr>]\<rparr>)
                                    (files s)\<rparr>,
                              Inr \<lparr>share_user = uid targetUser, permission = perm_or_read p\<rparr>)
                           else (s, Inl ServerError)))))))"

section \<open>Visibility (\<open>PATCH /file/:fileId/public\<close>)\<close>

text \<open>\<open>isPublic\<close> is \<open>None\<close> when the body has no such field (400), otherwise its cast to
  Boolean. \<open>File.findOneAndUpdate({ _id, owner }, { isPublic }, { new: true })\<close> throws when
  \<open>fileId\<close> or \<open>isPublic\<close> does not cast (500).\<close>

definition setPublic ::
  "user_id \<Rightarrow> file_id casted \<Rightarrow> bool casted option \<Rightarrow> state \<Rightarrow> state \<times> (error + file_doc)" where
  "setPublic userId fileId ip s =
     (case ip of
        None \<Rightarrow> (s, Inl BadRequest)
      | Some Uncastable \<Rightarrow> (s, Inl ServerError)
      | Some (Casts b) \<Rightarrow>
          (case fileId of
             Uncastable \<Rightarrow> (s, Inl ServerError)
           | Casts i \<Rightarrow>
               (case find (\<lambda>f. fid f = i \<and> owner f = userId) (files s) of
                  None \<Rightarrow> (s, Inl NotFound)
                | Some f \<Rightarrow>
                    (s\<lparr>files := updateOne (\<lambda>g. fid g = i \<and> owner g = userId)
                                   (\<lambda>g. g\<lparr>isPublic := b\<rparr>) (files s)\<rparr>,
                     Inr (f\<lparr>isPublic := b\<rparr>)))))"

section \<open>Edit access\<close>

text \<open>
  Modelled from the spec: \<open>canEdit\<close> of the Sharing Engine (spec 4.3). The source has no
  such function and no route reads the stored permission; the definition follows the
  sentence of the spec, over the File document of the source: true iff the requester is the
  owner, or appears in \<open>sharedWith\<close> with permission \<open>edit\<close>.
\<close>

definition canEdit :: "user_id \<Rightarrow> file_doc \<Rightarrow> bool" where
  "canEdit requesterId f =
     (owner f = requesterId
      \<or> list_ex (\<lambda>sh. share_user sh = requesterId \<and> permission sh = perm_edit) (sharedWith f))"

section \<open>Ledger and catalog observations\<close>

text \<open>The ledger value of a user, and the sum of the sizes of the user's live File
  records.\<close>

definition storageUsed_of :: "user_id \<Rightarrow> state \<Rightarrow> rat option" where
  "storageUsed_of userId s = map_option storageUsed (find (\<lambda>u. uid u = userId) (users s))"

definition live_size :: "user_id \<Rightarrow> state \<Rightarrow> rat" where
  "live_size userId s = sum_list (map file_size (filter (\<lambda>f. owner f = userId) (files s)))"

text \<open>The ledger agrees with the catalog when every user's \<open>storageUsed\<close> is the sum of the
  sizes of that user's live File records.\<close>

definition ledger_ok :: "state \<Rightarrow> bool" where
  "ledger_ok s = list_all (\<lambda>u. storageUsed u = live_size (uid u) s) (users s)"

section \<open>The \<open>sharedWith\<close> array after a grant\<close>

text \<open>The two branches of the share route, on the array alone: the permission of the first
  entry of the target is overwritten if there is one, otherwise an entry is appended.\<close>

definition granted :: "user_id \<Rightarrow> jstring \<Rightarrow> share list \<Rightarrow> share list" where
  "granted t q shs =
     (if list_ex (\<lambda>sh. share_user sh = t) shs
      then updateOne (\<lambda>sh. share_user sh = t) (\<lambda>sh. sh\<lparr>permission := q\<rparr>) shs
      else shs @ [\<lparr>share_user = t, permission = q\<rparr>])"

section \<open>Example states\<close>

text \<open>\<open>toLowerCase\<close> on strings of ASCII characters.\<close>

definition ascii_toLowerCase :: "jstring \<Rightarrow> jstring" where
  "ascii_toLowerCase v = map (\<lambda>c. if 65 \<le> c \<and> c \<le> 90 then c + 32 else c) v"

text \<open>Two users; a file of Alice shared with Bob for editing; a folder of Alice that
  holds one file of Alice and one of Bob.\<close>

definition alice :: user where
  "alice = \<lparr>uid = 1, name = str ''Alice'', email = str ''alice@x.org'', storageUsed = 400,
            storageLimit = 1073741824\<rparr>"

definition bob :: user where
  "bob = \<lparr>uid = 2, name = str ''Bob'', email = str ''bob@x.org'', storageUsed = 200,
          storageLimit = 1073741824\<rparr>"

definition report :: file_doc where
  "report = \<lparr>fid = 100, filename = str ''17-1.txt'', originalName = str ''report.txt'',
             mimetype = str ''text/plain'', file_size = 100, path = str ''up/1/17-1.txt'',
             owner = 1, folder = None, isPublic = False,
             sharedWith = [\<lparr>share_user = 2, permission = str ''edit''\<rparr>]\<rparr>"

definition photo :: file_doc where
  "photo = \<lparr>fid = 101, filename = str ''18-2.png'', originalName = str ''photo.png'',
            mimetype = str ''image/png'', file_size = 300, path = str ''up/1/18-2.png'',
            owner = 1, folder = Some 10, isPublic = False, sharedWith = []\<rparr>"

definition memo :: file_doc where
  "memo = \<lparr>fid = 102, filename = str ''19-3.txt'', originalName = str ''notes.txt'',
           mimetype = str ''text/plain'', file_size = 200, path = str ''up/2/19-3.txt'',
           owner = 2, folder = Some 10, isPublic = False, sharedWith = []\<rparr>"

definition album :: folder_doc where
  "album = \<lparr>did = 10, folder_name = str ''album'', folder_owner = 1, parent = None\<rparr>"

definition shared_state :: state where
  "shared_state = \<lparr>users = [alice, bob], files = [report, photo, memo], folders = [album],
                   blobs = {str ''up/1/17-1.txt'', str ''up/1/18-2.png'',
                            str ''up/2/19-3.txt''}\<rparr>"


text \<open>Bob's upload of 200 bytes, as multer hands it to the handler, and the state in which
  the handler then starts: Alice owns the folder, the new blob is on disk.\<close>

definition bob_upload :: req_file where
  "bob_upload = \<lparr>rf_filename = str ''19-3.txt'', rf_originalname = str ''notes.txt'',
                 rf_mimetype = str ''text/plain'', rf_size = 200,
                 rf_path = str ''up/2/19-3.txt''\<rparr>"

definition fresh_state :: state where
  "fresh_state = \<lparr>users = [alice\<lparr>storageUsed := 0\<rparr>, bob\<lparr>storageUsed := 0\<rparr>], files = [],
                  folders = [album], blobs = {str ''up/2/19-3.txt''}\<rparr>"

text \<open>An object for \<open>new File\<close> with a given size.\<close>

definition sized_input :: "rat option \<Rightarrow> file_input" where
  "sized_input sz = \<lparr>in_filename = str ''20-4.bin'', in_originalName = str ''data.bin'',
                     in_mimetype = str ''application/octet-stream'', in_size = sz,
                     in_path = str ''up/1/20-4.bin'', in_owner = 1, in_folder = None\<rparr>"

definition sized_doc :: "rat \<Rightarrow> file_doc" where
  "sized_doc sz = \<lparr>fid = 103, filename = str ''20-4.bin'', originalName = str ''data.bin'',
                   mimetype = str ''application/octet-stream'', file_size = sz,
                   path = str ''up/1/20-4.bin'', owner = 1, folder = None, isPublic = False,
                   sharedWith = []\<rparr>"


section \<open>Properties\<close>

text \<open>
  Claim C2. For every user and every requested byte count, the quota pre-flight check
  denies exactly when \<open>storageUsed + requestedBytes > storageLimit\<close>; in particular it
  approves when the sum equals the limit.
\<close>

theorem fileFilter_denies_iff:
  "(fileFilter u (Some n) = Inl StorageLimitExceeded) = (storageUsed u + of_int n > storageLimit u)
   \<and> (fileFilter u (Some n) = Inr ()) = (storageUsed u + of_int n \<le> storageLimit u)
   \<and> fileFilter (u\<lparr>storageLimit := storageUsed u + of_int n\<rparr>) (Some n) = Inr ()"
  by (simp add: fileFilter_def)

lemmas ex_defs = shared_state_def alice_def bob_def report_def photo_def memo_def album_def
  bob_upload_def fresh_state_def str_def

lemma str_eq_Nil [simp]: "(str cs = []) = (cs = [])" "([] = str cs) = (cs = [])"
  by (auto simp: str_def)

subsection \<open>Lookups by a unique \<open>_id\<close>\<close>

lemma find_unique_id:
  assumes "distinct (map k xs)" and "find (\<lambda>x. k x = i) xs = Some y"
  shows "find (\<lambda>x. k x = i \<and> Q x) xs = (if Q y then Some y else None)"
  using assms
proof (induction xs)
  case Nil
  then show ?case by simp
next
  case (Cons x xs)
  show ?case
  proof (cases "k x = i")
    case True
    with Cons.prems have xy: "x = y" by simp
    from Cons.prems True have "i \<notin> k ` set xs" by auto
    then have "\<forall>z \<in> set xs. k z \<noteq> i" by blast
    then have "find (\<lambda>x. k x = i \<and> Q x) xs = None"
      by (auto simp: find_None_iff)
    with True xy show ?thesis by simp
  next
    case False
    with Cons show ?thesis by simp
  qed
qed

lemma find_Some_holds: "find P xs = Some x \<Longrightarrow> P x"
  by (induction xs) (auto split: if_splits)

subsection \<open>Read access\<close>

text \<open>
  Claim C5. Let \<open>f\<close> be the File with id \<open>i\<close> (ids are unique). The download of \<open>i\<close> by
  requester \<open>r\<close> is served if and only if \<open>r\<close> owns \<open>f\<close>, or \<open>f\<close> is public, or \<open>r\<close> occurs in
  \<open>sharedWith\<close> (whatever the permission); in every other case the answer is 404.
\<close>

theorem download_access:
  assumes "distinct (map fid (files s))"
    and "find (\<lambda>g. fid g = i) (files s) = Some f"
  shows "(download r (Casts i) s = Inr (path f, originalName f))
           = (owner f = r \<or> isPublic f \<or> r \<in> share_user ` set (sharedWith f))
         \<and> (download r (Casts i) s = Inl NotFound)
           = (\<not> (owner f = r \<or> isPublic f \<or> r \<in> share_user ` set (sharedWith f)))"
proof -
  let ?Q = "\<lambda>g. owner g = r \<or> list_ex (\<lambda>sh. share_user sh = r) (sharedWith g) \<or> isPublic g"
  have "find (\<lambda>g. fid g = i \<and> ?Q g) (files s) = (if ?Q f then Some f else None)"
    using assms by (rule find_unique_id)
  moreover have "?Q f = (owner f = r \<or> isPublic f \<or> r \<in> share_user ` set (sharedWith f))"
    by (auto simp: list_ex_iff)
  ultimately show ?thesis
    by (simp add: download_def)
qed

theorem download_access_witness:
  "distinct (map fid (files shared_state))
   \<and> find (\<lambda>g. fid g = 100) (files shared_state) = Some report
   \<and> download 2 (Casts 100) shared_state = Inr (path report, originalName report)
   \<and> download 3 (Casts 100) shared_state = Inl NotFound"
proof -
  have d: "distinct (map fid (files shared_state))" by (simp add: ex_defs)
  have f: "find (\<lambda>g. fid g = 100) (files shared_state) = Some report" by (simp add: ex_defs)
  have a: "2 \<in> share_user ` set (sharedWith report)" by (simp add: report_def)
  have b: "\<not> (owner report = 3 \<or> isPublic report \<or> 3 \<in> share_user ` set (sharedWith report))"
    by (simp add: report_def)
  from download_access [OF d f, of 2] a
  have "download 2 (Casts 100) shared_state = Inr (path report, originalName report)" by simp
  moreover from download_access [OF d f, of 3] b
  have "download 3 (Casts 100) shared_state = Inl NotFound" by simp
  ultimately show ?thesis using d f by simp
qed

subsection \<open>Deleting a file one does not own\<close>

text \<open>
  A \<open>fileId\<close> that is no ObjectId is the id of no File, yet the answer to the request is
  500, not 404: the lookup throws.
\<close>

theorem deleteFile_malformed_id:
  "deleteFile 2 Uncastable shared_state = (shared_state, Inl ServerError)"
  by (simp add: deleteFile_def)

text \<open>
  Claim C8, with the cast of the id. If \<open>fileId\<close> is an ObjectId and no File with that id
  is owned by \<open>u\<close> (the id is unknown, or the file belongs to someone else, who may have
  shared it with \<open>u\<close>), deleting it as \<open>u\<close> answers 404; if \<open>fileId\<close> is no ObjectId the
  answer is 500. In both cases the whole state, that is records, ledger and blobs, is left
  as it was.
\<close>

theorem deleteFile_not_owner:
  assumes "\<not> list_ex (\<lambda>f. fid f = i \<and> owner f = u) (files s)"
  shows "deleteFile u (Casts i) s = (s, Inl NotFound)
         \<and> deleteFile u Uncastable s = (s, Inl ServerError)"
proof -
  from assms have "find (\<lambda>f. fid f = i \<and> owner f = u) (files s) = None"
    by (simp add: find_None_iff list_ex_iff)
  then show ?thesis by (simp add: deleteFile_def)
qed

theorem deleteFile_not_owner_witness:
  "\<not> list_ex (\<lambda>f. fid f = 100 \<and> owner f = 2) (files shared_state)
   \<and> list_ex (\<lambda>sh. share_user sh = 2) (sharedWith report)
   \<and> deleteFile 2 (Casts 100) shared_state = (shared_state, Inl NotFound)"
proof -
  have h: "\<not> list_ex (\<lambda>f. fid f = 100 \<and> owner f = 2) (files shared_state)"
    by (simp add: ex_defs)
  from deleteFile_not_owner [OF h] h show ?thesis by (simp add: report_def)
qed

subsection \<open>A failed upload leaves no blob\<close>

lemma blobs_unlink_if_exists:
  "p \<noteq> [] \<Longrightarrow> p \<notin> blobs (unlink_if_exists p s)"
  by (simp add: unlink_if_exists_def)

text \<open>
  Claim C10. If the upload handler, started with the blob of \<open>req.file\<close> on disk, answers
  with an error (the save of the File record or the ledger increment threw), the blob at
  \<open>req.file.path\<close> is no longer on disk, and the answer is 500.
\<close>

theorem upload_failure_removes_blob:
  assumes "rf_path rf \<noteq> []"
    and "upload fl u (Some rf) d nid s = (s', Inl e)"
  shows "rf_path rf \<notin> blobs s' \<and> e = ServerError"
  using assms
  by (auto simp: upload_def blobs_unlink_if_exists split: if_splits sum.splits prod.splits)

lemma trim_examples [simp]:
  "trim (str ''19-3.txt'') = str ''19-3.txt''"
  "trim (str ''notes.txt'') = str ''notes.txt''"
  "trim (str ''20-4.bin'') = str ''20-4.bin''"
  "trim (str ''data.bin'') = str ''data.bin''"
  "trim (str ''album'') = str ''album''"
  by (simp_all add: trim_def is_space_def str_def)

text \<open>A name that consists of a no-break space is empty after trimming, so an upload
  under that name fails the validation of \<open>originalName\<close>.\<close>

lemma trim_white_space:
  "trim [0xA0] = []"
  "trim ([0x2003, 0x0A] @ str ''a b'' @ [0xFEFF, 0x20]) = str ''a b''"
  "snd (upload no_faults 2 (Some (bob_upload\<lparr>rf_originalname := [0xA0]\<rparr>)) None 102 fresh_state)
     = Inl ServerError"
  by (simp_all add: trim_def is_space_def str_def upload_def no_faults_def File_save_def
      File_validate_def File_valid_def Let_def bob_upload_def fresh_state_def)

theorem upload_failure_removes_blob_witness:
  "rf_path bob_upload \<noteq> []
   \<and> rf_path bob_upload \<in> blobs fresh_state
   \<and> snd (upload \<lparr>save_throws = False, inc_throws = True\<rparr> 2 (Some bob_upload) (Some (Casts 10))
            102 fresh_state) = Inl ServerError
   \<and> rf_path bob_upload
       \<notin> blobs (fst (upload \<lparr>save_throws = False, inc_throws = True\<rparr> 2 (Some bob_upload)
                        (Some (Casts 10)) 102 fresh_state))"
proof -
  let ?r = "upload \<lparr>save_throws = False, inc_throws = True\<rparr> 2 (Some bob_upload)
              (Some (Casts 10)) 102 fresh_state"
  have p: "rf_path bob_upload \<noteq> []" by (simp add: bob_upload_def str_def)
  have e: "snd ?r = Inl ServerError"
    by (simp add: upload_def File_save_def File_validate_def File_valid_def Let_def
        bob_upload_def fresh_state_def)
  then have r: "?r = (fst ?r, Inl ServerError)" by (metis prod.collapse)
  from upload_failure_removes_blob [OF p r] p e show ?thesis
    by (simp add: ex_defs)
qed

subsection \<open>Validation of the size of a new File\<close>

text \<open>
  A size that is negative and a size that is not an integer both pass the validation of
  FileSchema: the document is created and inserted with the size as given. So it is not the
  case that creating a File fails for every size that is not a non-negative integer.
\<close>

theorem File_save_accepts_any_number:
  "File_save 103 (sized_input (Some (- 1))) [] = Inr (sized_doc (- 1), [sized_doc (- 1)])
   \<and> file_size (sized_doc (- 1)) < 0
   \<and> File_save 103 (sized_input (Some (3 / 2))) [] = Inr (sized_doc (3 / 2), [sized_doc (3 / 2)])
   \<and> file_size (sized_doc (3 / 2)) \<notin> \<int>"
proof -
  have "(3 / 2 :: rat) \<notin> \<int>"
  proof
    assume "(3 / 2 :: rat) \<in> \<int>"
    then obtain z :: int where "(3 / 2 :: rat) = of_int z" by (auto elim: Ints_cases)
    then have "of_int (2 * z) = (of_int 3 :: rat)" by simp
    then have "2 * z = 3" by (simp only: of_int_eq_iff)
    then show False by presburger
  qed
  then show ?thesis
    by (simp add: File_save_def File_validate_def File_valid_def Let_def sized_input_def
        sized_doc_def)
qed

text \<open>
  Claim C7, as the schema has it. For an object whose other fields are valid and whose id
  is new, creating the File fails with ValidationError exactly when the size supplied is no
  number, and then nothing is inserted; any number supplied, whatever its sign and whether
  an integer or not, is stored as the size of the one document inserted. The upload route
  supplies the byte count of the blob: the record of a successful upload has that natural
  number as its size.
\<close>

theorem File_save_size_required:
  assumes "trim (in_filename inp) \<noteq> []" and "trim (in_originalName inp) \<noteq> []"
    and "in_mimetype inp \<noteq> []" and "in_path inp \<noteq> []"
    and "in_folder inp \<noteq> Some Uncastable"
    and "\<not> list_ex (\<lambda>f. fid f = nid) fs"
  shows "(File_save nid inp fs = Inl ValidationError) = (in_size inp = None)
         \<and> (case File_save nid inp fs of
              Inl e \<Rightarrow> e = ValidationError
            | Inr (doc, fs') \<Rightarrow> in_size inp = Some (file_size doc) \<and> fs' = fs @ [doc])
         \<and> (\<forall>s' doc. upload fl u (Some rf) fo nid s = (s', Inr doc) \<longrightarrow>
               file_size doc = of_nat (rf_size rf) \<and> files s' = files s @ [doc])"
proof -
  have "(File_save nid inp fs = Inl ValidationError) = (in_size inp = None)
         \<and> (case File_save nid inp fs of
              Inl e \<Rightarrow> e = ValidationError
            | Inr (doc, fs') \<Rightarrow> in_size inp = Some (file_size doc) \<and> fs' = fs @ [doc])"
    using assms
    by (simp add: File_save_def File_validate_def File_valid_def Let_def split: option.splits)
  moreover have "\<forall>s' doc. upload fl u (Some rf) fo nid s = (s', Inr doc) \<longrightarrow>
               file_size doc = of_nat (rf_size rf) \<and> files s' = files s @ [doc]"
    by (auto simp: upload_def File_save_def File_validate_def Let_def inc_storageUsed_def
        split: if_splits sum.splits prod.splits option.splits)
  ultimately show ?thesis by blast
qed

theorem File_save_size_required_witness:
  "trim (in_filename (sized_input None)) \<noteq> []
   \<and> trim (in_originalName (sized_input None)) \<noteq> []
   \<and> in_mimetype (sized_input None) \<noteq> []
   \<and> in_path (sized_input None) \<noteq> []
   \<and> in_folder (sized_input None) \<noteq> Some Uncastable
   \<and> \<not> list_ex (\<lambda>f. fid f = 102) (files fresh_state)
   \<and> File_save 102 (sized_input None) (files fresh_state) = Inl ValidationError
   \<and> upload no_faults 2 (Some bob_upload) (Some (Casts 10)) 102 fresh_state
       = (fresh_state\<lparr>users := [alice\<lparr>storageUsed := 0\<rparr>, bob\<lparr>storageUsed := 200\<rparr>],
                      files := [memo]\<rparr>, Inr memo)
   \<and> file_size memo = of_nat (rf_size bob_upload)"
proof -
  let ?inp = "sized_input None"
  have a: "trim (in_filename ?inp) \<noteq> []" "trim (in_originalName ?inp) \<noteq> []"
    "in_mimetype ?inp \<noteq> []" "in_path ?inp \<noteq> []" "in_folder ?inp \<noteq> Some Uncastable"
    by (simp_all add: sized_input_def)
  have e: "\<not> list_ex (\<lambda>f. fid f = 102) (files fresh_state)" by (simp add: fresh_state_def)
  have n: "in_size ?inp = None" by (simp add: sized_input_def)
  have up: "upload no_faults 2 (Some bob_upload) (Some (Casts 10)) 102 fresh_state
       = (fresh_state\<lparr>users := [alice\<lparr>storageUsed := 0\<rparr>, bob\<lparr>storageUsed := 200\<rparr>],
                      files := [memo]\<rparr>, Inr memo)"
    by (simp add: upload_def no_faults_def File_save_def File_validate_def File_valid_def Let_def
        inc_storageUsed_def bob_upload_def fresh_state_def memo_def alice_def bob_def)
  note inst = File_save_size_required [OF a e, of no_faults 2 bob_upload "Some (Casts 10)"
      fresh_state]
  from inst n have 1: "File_save 102 ?inp (files fresh_state) = Inl ValidationError"
    by blast
  from inst up have 2: "file_size memo = of_nat (rf_size bob_upload)"
    by blast
  from 1 2
  have "File_save 102 ?inp (files fresh_state) = Inl ValidationError
        \<and> file_size memo = of_nat (rf_size bob_upload)"
    by blast
  with a e up show ?thesis by simp
qed

subsection \<open>Edit access\<close>

lemma perm_read_neq_edit [simp]: "perm_read \<noteq> perm_edit" "perm_edit \<noteq> perm_read"
  "perm_read \<noteq> []" "perm_edit \<noteq> []" "[] \<noteq> perm_read" "[] \<noteq> perm_edit"
  by (simp_all add: perm_read_def perm_edit_def str_def)

text \<open>
  Claim C6, for \<open>canEdit\<close> as the spec words it. Edit access holds if and only if the
  requester is the owner or has an entry in \<open>sharedWith\<close> whose permission is \<open>edit\<close>; the
  public flag plays no part in it; and a requester who is not the owner and whose entries
  all carry \<open>read\<close> has no edit access.
\<close>

theorem canEdit_iff:
  "canEdit r f
     = (owner f = r \<or> (\<exists>sh \<in> set (sharedWith f). share_user sh = r \<and> permission sh = perm_edit))
   \<and> canEdit r (f\<lparr>isPublic := b\<rparr>) = canEdit r f
   \<and> (owner f \<noteq> r
        \<and> list_all (\<lambda>sh. share_user sh = r \<longrightarrow> permission sh = perm_read) (sharedWith f)
       \<longrightarrow> \<not> canEdit r f)"
  by (auto simp: canEdit_def list_ex_iff list_all_iff)

theorem canEdit_iff_witness:
  "owner photo \<noteq> 2
   \<and> map_option (canEdit 2)
        (find (\<lambda>g. fid g = 101)
           (files (fst (shareFile ascii_toLowerCase 1 (Casts 101) (str ''bob@x.org'') perm_read
                          shared_state)))) = Some False
   \<and> map_option (canEdit 2)
        (find (\<lambda>g. fid g = 101)
           (files (fst (shareFile ascii_toLowerCase 1 (Casts 101) (str ''bob@x.org'') perm_edit
                          shared_state)))) = Some True
   \<and> map_option (canEdit 2)
        (find (\<lambda>g. fid g = 101)
           (files (fst (setPublic 1 (Casts 101) (Some (Casts True)) shared_state)))) = Some False
   \<and> canEdit 1 photo"
proof -
  let ?rd = "photo\<lparr>sharedWith := [\<lparr>share_user = 2, permission = perm_read\<rparr>]\<rparr>"
  let ?ed = "photo\<lparr>sharedWith := [\<lparr>share_user = 2, permission = perm_edit\<rparr>]\<rparr>"
  have em: "email_setters ascii_toLowerCase (str ''bob@x.org'') = str ''bob@x.org''"
    by (simp add: email_setters_def ascii_toLowerCase_def trim_def is_space_def str_def)
  have valid: "File_valid ?rd" "File_valid ?ed"
    by (simp_all add: File_valid_def permission_valid_def photo_def)
  have f1: "find (\<lambda>g. fid g = 101)
           (files (fst (shareFile ascii_toLowerCase 1 (Casts 101) (str ''bob@x.org'') perm_read
                          shared_state))) = Some ?rd"
    using valid(1)
    by (simp add: shareFile_def em perm_or_read_def shared_state_def alice_def bob_def report_def
        memo_def) (simp add: photo_def str_def)
  have f2: "find (\<lambda>g. fid g = 101)
           (files (fst (shareFile ascii_toLowerCase 1 (Casts 101) (str ''bob@x.org'') perm_edit
                          shared_state))) = Some ?ed"
    using valid(2)
    by (simp add: shareFile_def em perm_or_read_def shared_state_def alice_def bob_def report_def
        memo_def) (simp add: photo_def str_def)
  have f3: "find (\<lambda>g. fid g = 101)
           (files (fst (setPublic 1 (Casts 101) (Some (Casts True)) shared_state)))
          = Some (photo\<lparr>isPublic := True\<rparr>)"
    by (simp add: setPublic_def shared_state_def report_def memo_def) (simp add: photo_def)
  have o: "owner photo \<noteq> 2" by (simp add: photo_def)
  have c1: "\<not> canEdit 2 ?rd"
    using canEdit_iff [of 2 ?rd] o by simp
  have c2: "canEdit 2 ?ed"
    using canEdit_iff [of 2 ?ed] by simp
  have c3: "\<not> canEdit 2 (photo\<lparr>isPublic := True\<rparr>)"
    using canEdit_iff [of 2 photo True] o by (simp add: photo_def)
  have c4: "canEdit 1 photo"
    using canEdit_iff [of 1 photo] by (simp add: photo_def)
  from f1 f2 f3 c1 c2 c3 c4 o show ?thesis by simp
qed

subsection \<open>Granting a share twice\<close>

lemma length_updateOne [simp]: "length (updateOne P g xs) = length xs"
  by (induction xs) auto

lemma map_key_updateOne:
  "(\<And>x. P x \<Longrightarrow> k (g x) = k x) \<Longrightarrow> map k (updateOne P g xs) = map k xs"
  by (induction xs) auto









text \<open>
  The two hypotheses that Claim C4 takes from the data model are kept by the routes: a new
  File is valid, a grant of \<open>read\<close> or \<open>edit\<close> keeps a File valid, and a grant keeps the
  users of \<open>sharedWith\<close> distinct.
\<close>

lemma File_validate_valid: "File_validate nid inp = Inr doc \<Longrightarrow> File_valid doc"
  by (auto simp: File_validate_def Let_def split: option.splits if_splits)

lemma list_all_updateOne:
  "list_all Q xs \<Longrightarrow> (\<And>x. Q x \<Longrightarrow> Q (g x)) \<Longrightarrow> list_all Q (updateOne P g xs)"
  by (induction xs) auto

lemma granted_keeps_valid:
  assumes "File_valid f" and "permission_valid q"
  shows "File_valid (f\<lparr>sharedWith := granted t q (sharedWith f)\<rparr>)"
proof -
  from assms(1) have "list_all (\<lambda>sh. permission_valid (permission sh)) (sharedWith f)"
    by (simp add: File_valid_def)
  then have "list_all (\<lambda>sh. permission_valid (permission sh))
               (updateOne (\<lambda>sh. share_user sh = t) (\<lambda>sh. sh\<lparr>permission := q\<rparr>) (sharedWith f))"
    using assms(2) by (intro list_all_updateOne) simp_all
  with assms show ?thesis
    by (simp add: File_valid_def granted_def)
qed

lemma granted_keeps_distinct:
  assumes "distinct (map share_user shs)"
  shows "distinct (map share_user (granted t q shs))"
proof (cases "list_ex (\<lambda>sh. share_user sh = t) shs")
  case True
  have "map share_user (updateOne (\<lambda>sh. share_user sh = t) (\<lambda>sh. sh\<lparr>permission := q\<rparr>) shs)
          = map share_user shs"
    by (rule map_key_updateOne) simp
  with True assms show ?thesis by (simp add: granted_def)
next
  case False
  then have "t \<notin> share_user ` set shs" by (auto simp: list_ex_iff)
  with False assms show ?thesis by (simp add: granted_def)
qed



subsection \<open>Cascade deletion of a folder\<close>

lemma run_effects_Nil [simp]: "run_effects [] s = s"
  by (simp add: run_effects_def)

lemma run_effects_Cons [simp]: "run_effects (e # es) s = run_effects es (apply_effect e s)"
  by (simp add: run_effects_def)

lemma run_effects_append: "run_effects (es @ es') s = run_effects es' (run_effects es s)"
  by (simp add: run_effects_def)

lemma unlink_keeps [simp]:
  "users (unlink_if_exists p s) = users s"
  "files (unlink_if_exists p s) = files s"
  "folders (unlink_if_exists p s) = folders s"
  by (simp_all add: unlink_if_exists_def)

lemma run_unlinks_keeps:
  "users (run_effects (map (\<lambda>f. Unlink (g f)) fs) s) = users s
   \<and> files (run_effects (map (\<lambda>f. Unlink (g f)) fs) s) = files s
   \<and> folders (run_effects (map (\<lambda>f. Unlink (g f)) fs) s) = folders s"
  by (induction fs arbitrary: s) simp_all

lemma totalSize_sum: "totalSize fs = sum_list (map file_size fs)"
proof -
  have "foldl (\<lambda>total f. total + file_size f) a fs = a + sum_list (map file_size fs)" for a
    by (induction fs arbitrary: a) simp_all
  then show ?thesis by (simp add: totalSize_def)
qed

lemma totalSize_nonneg:
  "list_all (\<lambda>f. 0 \<le> file_size f) fs \<Longrightarrow> 0 \<le> totalSize fs"
  unfolding totalSize_sum by (induction fs) simp_all

lemma deleteFolder_result:
  assumes "find (\<lambda>x. did x = D \<and> folder_owner x = U) (folders s) = Some d"
  shows "snd (deleteFolder U (Casts D) s) = Inr ()"
    and "files (fst (deleteFolder U (Casts D) s)) = filter (\<lambda>f. folder f \<noteq> Some D) (files s)"
    and "users (fst (deleteFolder U (Casts D) s)) =
           (if totalSize (filter (\<lambda>f. folder f = Some D) (files s)) > 0
            then users (inc_storageUsed U
                          (- totalSize (filter (\<lambda>f. folder f = Some D) (files s))) s)
            else users s)"
    and "folders (fst (deleteFolder U (Casts D) s)) = deleteOne (\<lambda>x. did x = did d) (folders s)"
  using assms run_unlinks_keeps [of path "filter (\<lambda>f. folder f = Some D) (files s)" s]
  by (simp_all add: deleteFolder_def deleteFolder_effects_def Let_def run_effects_append
      deleteMany_def inc_storageUsed_def)


lemma apply_effect_blobs [simp]:
  "blobs (inc_storageUsed u x s) = blobs s"
  by (simp add: inc_storageUsed_def)

lemma take_unlinks_keeps:
  "users (run_effects (take k (map (\<lambda>f. Unlink (g f)) fs)) s) = users s
   \<and> files (run_effects (take k (map (\<lambda>f. Unlink (g f)) fs)) s) = files s
   \<and> folders (run_effects (take k (map (\<lambda>f. Unlink (g f)) fs)) s) = folders s"
  using run_unlinks_keeps [of g "take k fs" s] by (simp add: take_map)

lemma blobs_run_unlinks:
  "blobs (run_effects (map (\<lambda>f. Unlink (g f)) fs) s) = blobs s - (g ` set fs - {[]})"
  by (induction fs arbitrary: s) (auto simp: unlink_if_exists_def)

lemma blobs_take_unlinks:
  "blobs s - (g ` set fs - {[]}) \<subseteq> blobs (run_effects (take k (map (\<lambda>f. Unlink (g f)) fs)) s)
   \<and> blobs (run_effects (take k (map (\<lambda>f. Unlink (g f)) fs)) s) \<subseteq> blobs s"
proof -
  have "blobs (run_effects (take k (map (\<lambda>f. Unlink (g f)) fs)) s)
          = blobs s - (g ` set (take k fs) - {[]})"
    using blobs_run_unlinks [of g "take k fs" s] by (simp add: take_map)
  moreover have "set (take k fs) \<subseteq> set fs" by (rule set_take_subset)
  ultimately show ?thesis by auto
qed

lemma deleteFolder_blobs:
  assumes "find (\<lambda>x. did x = D \<and> folder_owner x = U) (folders s) = Some d"
  shows "blobs (fst (deleteFolder U (Casts D) s))
           = blobs s - (path ` set (filter (\<lambda>f. folder f = Some D) (files s)) - {[]})"
  using assms blobs_run_unlinks [of path "filter (\<lambda>f. folder f = Some D) (files s)" s]
  by (simp add: deleteFolder_def deleteFolder_effects_def Let_def run_effects_append)

lemma tail_stages:
  assumes "rest = inc @ [FileDeleteMany D, FolderDeleteOne D']"
    and "inc = [] \<or> inc = [IncStorageUsed U x]"
    and "t = run_effects (take m rest) s'" and "fin = run_effects rest s'"
  shows "blobs t = blobs fin \<and> blobs t = blobs s'
       \<and> (users t = users s' \<or> users t = users fin)
       \<and> (files t = files s' \<or> files t = files fin)
       \<and> (folders t = folders s' \<or> folders t = folders fin)
       \<and> (folders t \<noteq> folders s' \<longrightarrow> files t = files fin \<and> users t = users fin)
       \<and> (files t \<noteq> files s' \<longrightarrow> users t = users fin)"
proof -
  consider "m = 0" | "m = 1" | "m = 2" | "m \<ge> 3" by linarith
  then show ?thesis
  proof cases
    case 1
    with assms show ?thesis by (auto simp: inc_storageUsed_def)
  next
    case 2
    with assms show ?thesis by (auto simp: inc_storageUsed_def)
  next
    case 3
    with assms show ?thesis by (auto simp: inc_storageUsed_def numeral_2_eq_2)
  next
    case 4
    then have "take m rest = rest" using assms(1,2) by auto
    with assms show ?thesis by (auto simp: inc_storageUsed_def)
  qed
qed




text \<open>
  In the example Alice's folder holds a file of hers and one of Bob. After the two blobs
  are unlinked the third write lowers her ledger, while both File records and the Folder
  record still exist: the ledger is adjusted before the records are deleted, not after.
\<close>

theorem ledger_adjusted_before_records_deleted:
  "deleteFolder_effects 1 (Casts 10) shared_state
     = Inr [Unlink (str ''up/1/18-2.png''), Unlink (str ''up/2/19-3.txt''),
            IncStorageUsed 1 (- 500), FileDeleteMany 10, FolderDeleteOne 10]
   \<and> storageUsed_of 1 shared_state = Some 400
   \<and> storageUsed_of 1 (deleteFolder_after 3 1 (Casts 10) shared_state) = Some (- 100)
   \<and> files (deleteFolder_after 3 1 (Casts 10) shared_state) = [report, photo, memo]
   \<and> folders (deleteFolder_after 3 1 (Casts 10) shared_state) = [album]"
proof -
  have es: "deleteFolder_effects 1 (Casts 10) shared_state
     = Inr [Unlink (str ''up/1/18-2.png''), Unlink (str ''up/2/19-3.txt''),
            IncStorageUsed 1 (- 500), FileDeleteMany 10, FolderDeleteOne 10]"
    by (simp add: deleteFolder_effects_def totalSize_def shared_state_def report_def photo_def
        memo_def album_def)
  have "users (deleteFolder_after 3 1 (Casts 10) shared_state) = [alice\<lparr>storageUsed := - 100\<rparr>, bob]
        \<and> files (deleteFolder_after 3 1 (Casts 10) shared_state) = [report, photo, memo]
        \<and> folders (deleteFolder_after 3 1 (Casts 10) shared_state) = [album]"
    unfolding deleteFolder_after_def es
    by (simp add: inc_storageUsed_def shared_state_def alice_def bob_def)
  with es show ?thesis
    by (simp add: storageUsed_of_def shared_state_def alice_def bob_def)
qed

text \<open>
  Claim C3, in the order of the source. When the caller owns the folder, the handler
  unlinks the blobs of the files that reference the folder, then lowers the caller's ledger
  once by their total size (when positive), then deletes the File records that reference
  the folder in one batch, and last deletes the Folder record. Stated on the state after any
  number \<open>k\<close> of its writes: the ledger, the File collection and the Folder collection are
  each either as they were or as they are in the end, and the blobs lie between those of
  the start and those of the end; once the Folder record is gone the records, the ledger
  and the blobs are final; once File records are gone the ledger and the blobs are final;
  once the ledger has changed the blobs are final.
\<close>

theorem deleteFolder_write_order:
  assumes folder: "find (\<lambda>x. did x = D \<and> folder_owner x = U) (folders s) = Some d"
  shows "(users (deleteFolder_after k U (Casts D) s) = users s
          \<or> users (deleteFolder_after k U (Casts D) s) = users (fst (deleteFolder U (Casts D) s)))
       \<and> (files (deleteFolder_after k U (Casts D) s) = files s
          \<or> files (deleteFolder_after k U (Casts D) s) = files (fst (deleteFolder U (Casts D) s)))
       \<and> (folders (deleteFolder_after k U (Casts D) s) = folders s
          \<or> folders (deleteFolder_after k U (Casts D) s)
              = folders (fst (deleteFolder U (Casts D) s)))
       \<and> blobs (fst (deleteFolder U (Casts D) s)) \<subseteq> blobs (deleteFolder_after k U (Casts D) s)
       \<and> blobs (deleteFolder_after k U (Casts D) s) \<subseteq> blobs s
       \<and> (folders (deleteFolder_after k U (Casts D) s) \<noteq> folders s \<longrightarrow>
            files (deleteFolder_after k U (Casts D) s) = files (fst (deleteFolder U (Casts D) s))
            \<and> users (deleteFolder_after k U (Casts D) s) = users (fst (deleteFolder U (Casts D) s))
            \<and> blobs (deleteFolder_after k U (Casts D) s) = blobs (fst (deleteFolder U (Casts D) s)))
       \<and> (files (deleteFolder_after k U (Casts D) s) \<noteq> files s \<longrightarrow>
            users (deleteFolder_after k U (Casts D) s) = users (fst (deleteFolder U (Casts D) s))
            \<and> blobs (deleteFolder_after k U (Casts D) s) = blobs (fst (deleteFolder U (Casts D) s)))
       \<and> (users (deleteFolder_after k U (Casts D) s) \<noteq> users s \<longrightarrow>
            blobs (deleteFolder_after k U (Casts D) s) = blobs (fst (deleteFolder U (Casts D) s)))
       \<and> blobs (fst (deleteFolder U (Casts D) s))
           = blobs s - (path ` set (filter (\<lambda>f. folder f = Some D) (files s)) - {[]})
       \<and> users (fst (deleteFolder U (Casts D) s))
           = (if totalSize (filter (\<lambda>f. folder f = Some D) (files s)) > 0
              then users (inc_storageUsed U
                            (- totalSize (filter (\<lambda>f. folder f = Some D) (files s))) s)
              else users s)
       \<and> files (fst (deleteFolder U (Casts D) s)) = deleteMany (\<lambda>f. folder f = Some D) (files s)
       \<and> folders (fst (deleteFolder U (Casts D) s)) = deleteOne (\<lambda>x. did x = D) (folders s)"
proof -
  let ?fs = "filter (\<lambda>f. folder f = Some D) (files s)"
  let ?A = "map (\<lambda>f. Unlink (path f)) ?fs"
  let ?inc = "if totalSize ?fs > 0 then [IncStorageUsed U (- totalSize ?fs)] else []"
  let ?tl = "?inc @ [FileDeleteMany D, FolderDeleteOne (did d)]"
  let ?t = "deleteFolder_after k U (Casts D) s"
  let ?fin = "fst (deleteFolder U (Casts D) s)"
  have es: "deleteFolder_effects U (Casts D) s = Inr (?A @ ?tl)"
    using folder by (simp add: deleteFolder_effects_def Let_def)
  from folder have dD: "did d = D" by (auto dest: find_Some_holds)
  have fb: "blobs ?fin = blobs s - (path ` set ?fs - {[]})"
    by (rule deleteFolder_blobs [OF folder])
  have final: "blobs ?fin = blobs s - (path ` set ?fs - {[]})
       \<and> users ?fin = (if totalSize ?fs > 0 then users (inc_storageUsed U (- totalSize ?fs) s)
                        else users s)
       \<and> files ?fin = deleteMany (\<lambda>f. folder f = Some D) (files s)
       \<and> folders ?fin = deleteOne (\<lambda>x. did x = D) (folders s)"
    using fb deleteFolder_result(2,3,4) [OF folder] dD
    by (simp add: deleteMany_def)
  have "(users ?t = users s \<or> users ?t = users ?fin)
       \<and> (files ?t = files s \<or> files ?t = files ?fin)
       \<and> (folders ?t = folders s \<or> folders ?t = folders ?fin)
       \<and> blobs ?fin \<subseteq> blobs ?t \<and> blobs ?t \<subseteq> blobs s
       \<and> (folders ?t \<noteq> folders s \<longrightarrow>
            files ?t = files ?fin \<and> users ?t = users ?fin \<and> blobs ?t = blobs ?fin)
       \<and> (files ?t \<noteq> files s \<longrightarrow> users ?t = users ?fin \<and> blobs ?t = blobs ?fin)
       \<and> (users ?t \<noteq> users s \<longrightarrow> blobs ?t = blobs ?fin)"
  proof (cases "k \<le> length ?A")
    case True
    then have t: "?t = run_effects (take k ?A) s"
      by (simp add: deleteFolder_after_def es)
    with take_unlinks_keeps [of k path ?fs s]
    have same: "users ?t = users s \<and> files ?t = files s \<and> folders ?t = folders s" by simp
    from blobs_take_unlinks [of s path ?fs k] t fb
    have "blobs ?fin \<subseteq> blobs ?t \<and> blobs ?t \<subseteq> blobs s" by simp
    with same show ?thesis by simp
  next
    case False
    define s' where "s' = run_effects ?A s"
    define m where "m = k - length ?A"
    have same: "users s' = users s \<and> files s' = files s \<and> folders s' = folders s"
      unfolding s'_def by (rule run_unlinks_keeps)
    have t: "?t = run_effects (take m ?tl) s'"
      using False by (simp add: deleteFolder_after_def es run_effects_append s'_def m_def)
    have fin: "?fin = run_effects ?tl s'"
      by (simp add: deleteFolder_def es run_effects_append s'_def)
    have inc: "?inc = [] \<or> ?inc = [IncStorageUsed U (- totalSize ?fs)]" by simp
    have "blobs s' = blobs s - (path ` set ?fs - {[]})"
      unfolding s'_def by (rule blobs_run_unlinks)
    then have sub: "blobs s' \<subseteq> blobs s" by auto
    from tail_stages [OF refl inc t fin] same sub
    show ?thesis by auto
  qed
  with final show ?thesis by simp
qed

theorem deleteFolder_write_order_witness:
  "find (\<lambda>x. did x = 10 \<and> folder_owner x = 1) (folders shared_state) = Some album
   \<and> users (deleteFolder_after 4 1 (Casts 10) shared_state) \<noteq> users shared_state
   \<and> files (deleteFolder_after 4 1 (Casts 10) shared_state) \<noteq> files shared_state
   \<and> folders (deleteFolder_after 4 1 (Casts 10) shared_state) = folders shared_state
   \<and> users (deleteFolder_after 4 1 (Casts 10) shared_state)
       = users (fst (deleteFolder 1 (Casts 10) shared_state))
   \<and> blobs (deleteFolder_after 4 1 (Casts 10) shared_state)
       = blobs (fst (deleteFolder 1 (Casts 10) shared_state))
   \<and> folders (deleteFolder_after 5 1 (Casts 10) shared_state) \<noteq> folders shared_state
   \<and> files (deleteFolder_after 5 1 (Casts 10) shared_state)
       = files (fst (deleteFolder 1 (Casts 10) shared_state))
   \<and> users (deleteFolder_after 5 1 (Casts 10) shared_state)
       = users (fst (deleteFolder 1 (Casts 10) shared_state))
   \<and> blobs (deleteFolder_after 5 1 (Casts 10) shared_state)
       = blobs (fst (deleteFolder 1 (Casts 10) shared_state))"
proof -
  have a: "find (\<lambda>x. did x = 10 \<and> folder_owner x = 1) (folders shared_state) = Some album"
    by (simp add: shared_state_def album_def)
  have es: "deleteFolder_effects 1 (Casts 10) shared_state
     = Inr [Unlink (str ''up/1/18-2.png''), Unlink (str ''up/2/19-3.txt''),
            IncStorageUsed 1 (- 500), FileDeleteMany 10, FolderDeleteOne 10]"
    by (simp add: deleteFolder_effects_def totalSize_def shared_state_def report_def photo_def
        memo_def album_def)
  have b: "files (deleteFolder_after 4 1 (Casts 10) shared_state) \<noteq> files shared_state"
    unfolding deleteFolder_after_def es
    by (simp add: deleteMany_def inc_storageUsed_def shared_state_def report_def photo_def
        memo_def)
  have c: "folders (deleteFolder_after 4 1 (Casts 10) shared_state) = folders shared_state"
    unfolding deleteFolder_after_def es
    by (simp add: inc_storageUsed_def)
  have d: "users (deleteFolder_after 4 1 (Casts 10) shared_state) \<noteq> users shared_state"
    unfolding deleteFolder_after_def es
    by (simp add: inc_storageUsed_def shared_state_def alice_def bob_def)
  have e: "folders (deleteFolder_after 5 1 (Casts 10) shared_state) \<noteq> folders shared_state"
    unfolding deleteFolder_after_def es
    by (simp add: inc_storageUsed_def shared_state_def album_def)
  from deleteFolder_write_order [OF a, of 4] deleteFolder_write_order [OF a, of 5] a b c d e
  show ?thesis by simp
qed

subsection \<open>The ledger against the live files\<close>

text \<open>
  Upload and file deletion keep the ledger equal to the live sizes, and so does the
  deletion of a folder as long as every file in it belongs to the caller and no size in it
  is negative.
\<close>

lemma list_all_updateOne_key:
  assumes "distinct (map k xs)"
    and "\<And>x. x \<in> set xs \<Longrightarrow> k x = i \<Longrightarrow> Q (g x)"
    and "\<And>x. x \<in> set xs \<Longrightarrow> k x \<noteq> i \<Longrightarrow> Q x"
  shows "list_all Q (updateOne (\<lambda>x. k x = i) g xs)"
  using assms
proof (induction xs)
  case Nil
  then show ?case by simp
next
  case (Cons x xs)
  show ?case
  proof (cases "k x = i")
    case True
    with Cons.prems(1) have "i \<notin> k ` set xs" by auto
    then have "\<forall>y \<in> set xs. k y \<noteq> i" by blast
    with Cons.prems(3) have "list_all Q xs" by (simp add: list_all_iff)
    with True Cons.prems(2) show ?thesis by simp
  next
    case False
    with Cons show ?thesis by simp
  qed
qed

lemma ledger_ok_step:
  assumes d: "distinct (map uid (users s))" and ok: "ledger_ok s"
    and fs: "files s' = fs'"
    and us: "users s' = updateOne (\<lambda>u. uid u = v) (\<lambda>u. u\<lparr>storageUsed := storageUsed u + x\<rparr>) (users s)"
    and own: "sum_list (map file_size (filter (\<lambda>f. owner f = v) fs'))
                = live_size v s + x"
    and others: "\<And>w. w \<noteq> v \<Longrightarrow> sum_list (map file_size (filter (\<lambda>f. owner f = w) fs'))
                = live_size w s"
  shows "ledger_ok s'"
proof -
  have "list_all (\<lambda>u. storageUsed u = live_size (uid u) s')
          (updateOne (\<lambda>u. uid u = v) (\<lambda>u. u\<lparr>storageUsed := storageUsed u + x\<rparr>) (users s))"
  proof (rule list_all_updateOne_key [OF d])
    fix u assume "u \<in> set (users s)" and "uid u = v"
    with ok own fs show "storageUsed (u\<lparr>storageUsed := storageUsed u + x\<rparr>)
                 = live_size (uid (u\<lparr>storageUsed := storageUsed u + x\<rparr>)) s'"
      by (simp add: ledger_ok_def list_all_iff live_size_def)
  next
    fix u assume "u \<in> set (users s)" and "uid u \<noteq> v"
    with ok others [of "uid u"] fs show "storageUsed u = live_size (uid u) s'"
      by (simp add: ledger_ok_def list_all_iff live_size_def)
  qed
  with us show ?thesis by (simp add: ledger_ok_def)
qed

lemma upload_keeps_ledger_ok:
  assumes d: "distinct (map uid (users s))" and ok: "ledger_ok s"
    and up: "upload fl v (Some rf) dd nid s = (s', Inr doc)"
  shows "ledger_ok s'"
proof -
  from up have s': "s' = inc_storageUsed v (of_nat (rf_size rf)) (s\<lparr>files := files s @ [doc]\<rparr>)"
    and doc: "owner doc = v" "file_size doc = of_nat (rf_size rf)"
    by (auto simp: upload_def File_save_def File_validate_def Let_def
        split: if_splits sum.splits prod.splits option.splits)
  show ?thesis
  proof (rule ledger_ok_step [OF d ok])
    show "files s' = files s @ [doc]" by (simp add: s' inc_storageUsed_def)
    show "users s' = updateOne (\<lambda>u. uid u = v)
                       (\<lambda>u. u\<lparr>storageUsed := storageUsed u + of_nat (rf_size rf)\<rparr>) (users s)"
      by (simp add: s' inc_storageUsed_def)
    show "sum_list (map file_size (filter (\<lambda>f. owner f = v) (files s @ [doc])))
            = live_size v s + of_nat (rf_size rf)"
      using doc by (simp add: live_size_def)
    show "sum_list (map file_size (filter (\<lambda>f. owner f = w) (files s @ [doc]))) = live_size w s"
      if "w \<noteq> v" for w
      using doc that by (simp add: live_size_def)
  qed
qed

lemma sum_deleteOne:
  fixes h :: "'a \<Rightarrow> rat"
  shows "find P xs = Some y \<Longrightarrow> sum_list (map h (deleteOne P xs)) = sum_list (map h xs) - h y"
  by (induction xs) (auto split: if_splits)

lemma find_by_own_key:
  "distinct (map k xs) \<Longrightarrow> y \<in> set xs \<Longrightarrow> find (\<lambda>x. k x = k y) xs = Some y"
  by (induction xs) force+

lemma deleteFile_keeps_ledger_ok:
  assumes d: "distinct (map uid (users s))" and df: "distinct (map fid (files s))"
    and ok: "ledger_ok s"
  shows "ledger_ok (fst (deleteFile v i s))"
proof (cases i)
  case Uncastable
  with ok show ?thesis by (simp add: deleteFile_def)
next
  case (Casts j)
  show ?thesis
  proof (cases "find (\<lambda>f. fid f = j \<and> owner f = v) (files s)")
    case None
    with ok Casts show ?thesis by (simp add: deleteFile_def)
  next
    case (Some f)
    then have fo: "owner f = v" and fin: "f \<in> set (files s)"
      by (auto dest: find_Some_holds simp: find_Some_iff)
    have ff: "find (\<lambda>g. fid g = fid f) (files s) = Some f"
      using df fin by (rule find_by_own_key)
    let ?s' = "fst (deleteFile v i s)"
    have files': "files ?s' = deleteOne (\<lambda>g. fid g = fid f) (files s)"
      and users': "users ?s' = updateOne (\<lambda>u. uid u = v)
                     (\<lambda>u. u\<lparr>storageUsed := storageUsed u + (- file_size f)\<rparr>) (users s)"
      using Some Casts by (simp_all add: deleteFile_def Let_def inc_storageUsed_def)
    have size: "sum_list (map file_size (filter (\<lambda>g. owner g = w)
                   (deleteOne (\<lambda>g. fid g = fid f) (files s))))
          = live_size w s - (if owner f = w then file_size f else 0)" for w
      using sum_deleteOne [OF ff, of "\<lambda>g. if owner g = w then file_size g else 0"]
      by (simp add: live_size_def sum_list_map_filter')
    show ?thesis
    proof (rule ledger_ok_step [OF d ok files' users'])
      show "sum_list (map file_size (filter (\<lambda>g. owner g = v)
                (deleteOne (\<lambda>g. fid g = fid f) (files s))))
              = live_size v s + - file_size f"
        using size [of v] fo by simp
      show "sum_list (map file_size (filter (\<lambda>g. owner g = w)
                (deleteOne (\<lambda>g. fid g = fid f) (files s))))
              = live_size w s" if "w \<noteq> v" for w
        using size [of w] fo that by simp
    qed
  qed
qed

lemma updateOne_ident: "(\<And>x. g x = x) \<Longrightarrow> updateOne P g xs = xs"
  by (induction xs) auto

lemma sum_list_split:
  fixes h :: "'a \<Rightarrow> rat"
  shows "sum_list (map h (filter (\<lambda>x. \<not> P x) xs))
           = sum_list (map h xs) - sum_list (map h (filter P xs))"
  by (induction xs) auto

lemma deleteFolder_keeps_ledger_ok:
  assumes d: "distinct (map uid (users s))" and ok: "ledger_ok s"
    and folder: "find (\<lambda>x. did x = D \<and> folder_owner x = v) (folders s) = Some fd"
    and own: "list_all (\<lambda>f. owner f = v) (filter (\<lambda>f. folder f = Some D) (files s))"
    and sizes: "list_all (\<lambda>f. 0 \<le> file_size f) (filter (\<lambda>f. folder f = Some D) (files s))"
  shows "ledger_ok (fst (deleteFolder v (Casts D) s))"
proof -
  let ?fs = "filter (\<lambda>f. folder f = Some D) (files s)"
  let ?s' = "fst (deleteFolder v (Casts D) s)"
  from sizes have nonneg: "0 \<le> totalSize ?fs" by (rule totalSize_nonneg)
  have files': "files ?s' = filter (\<lambda>f. \<not> folder f = Some D) (files s)"
    by (simp add: deleteFolder_result(2) [OF folder])
  have users': "users ?s' = updateOne (\<lambda>u. uid u = v)
                   (\<lambda>u. u\<lparr>storageUsed := storageUsed u + (- totalSize ?fs)\<rparr>) (users s)"
  proof (cases "totalSize ?fs > 0")
    case True
    then show ?thesis
      by (simp add: deleteFolder_result(3) [OF folder] inc_storageUsed_def)
  next
    case False
    with nonneg have "totalSize ?fs = 0" by simp
    then show ?thesis
      by (simp add: deleteFolder_result(3) [OF folder] updateOne_ident)
  qed
  have part: "sum_list (map file_size (filter (\<lambda>f. owner f = w)
                 (filter (\<lambda>f. \<not> folder f = Some D) (files s))))
        = live_size w s - sum_list (map file_size (filter (\<lambda>f. owner f = w) ?fs))" for w
  proof -
    have "filter (\<lambda>f. owner f = w) (filter (\<lambda>f. \<not> folder f = Some D) (files s))
            = filter (\<lambda>f. \<not> folder f = Some D) (filter (\<lambda>f. owner f = w) (files s))"
      and "filter (\<lambda>f. owner f = w) ?fs
            = filter (\<lambda>f. folder f = Some D) (filter (\<lambda>f. owner f = w) (files s))"
      by (simp_all add: conj_commute)
    then show ?thesis
      by (simp only: sum_list_split live_size_def)
  qed
  show ?thesis
  proof (rule ledger_ok_step [OF d ok files' users'])
    from own have "filter (\<lambda>f. owner f = v) ?fs = ?fs"
      by (auto simp: list_all_iff intro: filter_cong)
    with part [of v] show "sum_list (map file_size (filter (\<lambda>f. owner f = v)
                 (filter (\<lambda>f. \<not> folder f = Some D) (files s))))
            = live_size v s + - totalSize ?fs"
      by (simp add: totalSize_sum)
    show "sum_list (map file_size (filter (\<lambda>f. owner f = w)
                 (filter (\<lambda>f. \<not> folder f = Some D) (files s)))) = live_size w s"
      if "w \<noteq> v" for w
    proof -
      from own that have "filter (\<lambda>f. owner f = w) ?fs = []"
        by (auto simp: list_all_iff filter_empty_conv)
      with part [of w] show ?thesis by simp
    qed
  qed
qed

text \<open>
  Claim C1 does not hold of the source. Alice creates a folder; ledger and live sizes agree
  for both users. Bob uploads 200 bytes into Alice's folder, which the upload route allows.
  Alice deletes her folder: Bob's record is deleted with it and the 200 bytes are taken from
  Alice's ledger. Afterwards Alice's ledger is \<open>-200\<close> with no live file, and Bob's is
  \<open>200\<close> with no live file.
\<close>

theorem ledger_diverges_from_live_files:
  "createFolder 1 (str ''album'') None 10 (fresh_state\<lparr>folders := []\<rparr>) = (fresh_state, Inr album)
   \<and> storageUsed_of 1 fresh_state = Some (live_size 1 fresh_state)
   \<and> storageUsed_of 2 fresh_state = Some (live_size 2 fresh_state)
   \<and> upload no_faults 2 (Some bob_upload) (Some (Casts 10)) 102 fresh_state
       = (fresh_state\<lparr>users := [alice\<lparr>storageUsed := 0\<rparr>, bob\<lparr>storageUsed := 200\<rparr>],
                      files := [memo]\<rparr>, Inr memo)
   \<and> snd (deleteFolder 1 (Casts 10)
            (fst (upload no_faults 2 (Some bob_upload) (Some (Casts 10)) 102 fresh_state)))
       = Inr ()
   \<and> files (fst (deleteFolder 1 (Casts 10)
                    (fst (upload no_faults 2 (Some bob_upload) (Some (Casts 10)) 102
                            fresh_state)))) = []
   \<and> storageUsed_of 1 (fst (deleteFolder 1 (Casts 10)
                    (fst (upload no_faults 2 (Some bob_upload) (Some (Casts 10)) 102
                            fresh_state))))
       = Some (- 200)
   \<and> live_size 1 (fst (deleteFolder 1 (Casts 10)
                    (fst (upload no_faults 2 (Some bob_upload) (Some (Casts 10)) 102
                            fresh_state)))) = 0
   \<and> storageUsed_of 2 (fst (deleteFolder 1 (Casts 10)
                    (fst (upload no_faults 2 (Some bob_upload) (Some (Casts 10)) 102
                            fresh_state))))
       = Some 200
   \<and> live_size 2 (fst (deleteFolder 1 (Casts 10)
                    (fst (upload no_faults 2 (Some bob_upload) (Some (Casts 10)) 102
                            fresh_state)))) = 0"
proof -
  have up: "upload no_faults 2 (Some bob_upload) (Some (Casts 10)) 102 fresh_state
       = (fresh_state\<lparr>users := [alice\<lparr>storageUsed := 0\<rparr>, bob\<lparr>storageUsed := 200\<rparr>],
                      files := [memo]\<rparr>, Inr memo)"
    by (simp add: upload_def no_faults_def File_save_def File_validate_def File_valid_def Let_def
        inc_storageUsed_def bob_upload_def fresh_state_def memo_def alice_def bob_def)
  have cf: "createFolder 1 (str ''album'') None 10 (fresh_state\<lparr>folders := []\<rparr>)
              = (fresh_state, Inr album)"
    by (simp add: createFolder_def Let_def fresh_state_def album_def)
  have inv: "storageUsed_of 1 fresh_state = Some (live_size 1 fresh_state)"
    "storageUsed_of 2 fresh_state = Some (live_size 2 fresh_state)"
    by (simp_all add: storageUsed_of_def live_size_def fresh_state_def alice_def bob_def)
  have del: "deleteFolder 1 (Casts 10)
               (fresh_state\<lparr>users := [alice\<lparr>storageUsed := 0\<rparr>, bob\<lparr>storageUsed := 200\<rparr>],
                            files := [memo]\<rparr>)
        = (fresh_state\<lparr>users := [alice\<lparr>storageUsed := - 200\<rparr>, bob\<lparr>storageUsed := 200\<rparr>],
                       files := [], folders := [], blobs := {}\<rparr>, Inr ())"
    by (simp add: deleteFolder_def deleteFolder_effects_def totalSize_def deleteMany_def
        inc_storageUsed_def unlink_if_exists_def fresh_state_def memo_def album_def alice_def
        bob_def)
  show ?thesis
    unfolding up fst_conv del snd_conv
    using cf inv up
    by (simp add: storageUsed_of_def live_size_def fresh_state_def alice_def bob_def)
qed

end
